theory Spec2Isabelle
  imports Main "HOL-Library.Word"
begin

unbundle bit_operations_syntax

section \<open>Common types\<close>

type_synonym byte = "8 word"

section \<open>FRU header validator (validateHeader, FruDevice.cpp 141-183)\<close>

text \<open>
  The loop \<^verbatim>\<open>for (int ii = 1; ii < 6; ii++)\<close> over the five area offsets. The
  \<^verbatim>\<open>std::set<uint8_t> foundOffsets\<close> is the accumulator: a zero offset is skipped
  (\<^verbatim>\<open>continue\<close>), an offset already in the set makes the validator return false,
  and the loop falling through is \<open>True\<close> here.
\<close>

function checkOffsets :: "byte list \<Rightarrow> nat \<Rightarrow> byte set \<Rightarrow> bool" where
  "checkOffsets blockData ii foundOffsets =
     (if ii < 6 then
        (if blockData ! ii = 0 then checkOffsets blockData (ii + 1) foundOffsets
         else if blockData ! ii \<in> foundOffsets then False
         else checkOffsets blockData (ii + 1) (insert (blockData ! ii) foundOffsets))
      else True)"
  by pat_completeness auto
termination
  by (relation "measure (\<lambda>(blockData, ii, foundOffsets). 6 - ii)") auto

text \<open>
  The loop \<^verbatim>\<open>for (int jj = 0; jj < 7; jj++) sum += blockData[jj]\<close>. The variable
  \<^verbatim>\<open>sum\<close> (here \<open>sm\<close>) is a \<^verbatim>\<open>size_t\<close>; its width \<open>'w\<close> is left open (32 or 64 bits).
\<close>

function headerSum :: "byte list \<Rightarrow> nat \<Rightarrow> 'w::len word \<Rightarrow> 'w word" where
  "headerSum blockData jj sm =
     (if jj < 7 then headerSum blockData (jj + 1) (sm + ucast (blockData ! jj)) else sm)"
  by pat_completeness auto
termination
  by (relation "measure (\<lambda>(blockData, jj, sm). 7 - jj)") auto

text \<open>
  \<^verbatim>\<open>validateHeader\<close>. The argument is the 32-byte block buffer of which only the
  first eight bytes are read. The type argument fixes the width of \<^verbatim>\<open>size_t\<close>.
\<close>

definition validateHeader :: "'w::len itself \<Rightarrow> byte list \<Rightarrow> bool" where
  "validateHeader w blockData =
     (if blockData ! 0 \<noteq> 1 then False
      else if blockData ! 6 \<noteq> 0 then False
      else if \<not> checkOffsets blockData 1 {} then False
      else
        (let sm = (256 - headerSum blockData 0 (0 :: 'w word)) AND 255
         in if sm \<noteq> ucast (blockData ! 7) then False else True))"

section \<open>The SMBus environment\<close>

text \<open>
  The daemon talks to the bus through an open file descriptor and the calls
  \<^verbatim>\<open>ioctl(file, I2C_SLAVE_FORCE, addr)\<close>, \<^verbatim>\<open>i2c_smbus_read_byte\<close>,
  \<^verbatim>\<open>i2c_smbus_read_byte_data\<close>, \<^verbatim>\<open>i2c_smbus_write_byte_data\<close> and
  \<^verbatim>\<open>i2c_smbus_read_i2c_block_data\<close> of the kernel and of libi2c. They are a
  parameter of the model: a record of state transformers over an arbitrary state
  \<open>'s\<close> of the bus and its devices. Each call returns the C return value (negative
  on failure) and the next state. The block read also returns the bytes it copied to
  the caller's buffer.
\<close>

record 's smbus =
  ioctl_slave_force :: "int \<Rightarrow> 's \<Rightarrow> int \<times> 's"
  smbus_read_byte :: "'s \<Rightarrow> int \<times> 's"
  smbus_read_byte_data :: "byte \<Rightarrow> 's \<Rightarrow> int \<times> 's"
  smbus_write_byte_data :: "byte \<Rightarrow> byte \<Rightarrow> 's \<Rightarrow> int \<times> 's"
  smbus_read_i2c_block_data :: "byte \<Rightarrow> byte \<Rightarrow> 's \<Rightarrow> (int \<times> byte list) \<times> 's"

section \<open>Addressing probe (isDevice16Bit, FruDevice.cpp 74-101)\<close>

text \<open>
  The loop \<^verbatim>\<open>for (int i = 0; i < 7; i++)\<close>: each round reads register 0 again,
  returns a negative result at once, returns 1 at the first byte that differs from
  \<^verbatim>\<open>byte1\<close>, and falls through to \<^verbatim>\<open>return 0\<close>.
\<close>

function probeLoop :: "'s smbus \<Rightarrow> int \<Rightarrow> nat \<Rightarrow> 's \<Rightarrow> int \<times> 's" where
  "probeLoop bus byte1 i s =
     (if i < 7 then
        (case smbus_read_byte_data bus 0 s of (byte2, s') \<Rightarrow>
           if byte2 < 0 then (byte2, s')
           else if byte2 \<noteq> byte1 then (1, s')
           else probeLoop bus byte1 (i + 1) s')
      else (0, s))"
  by pat_completeness auto
termination
  by (relation "measure (\<lambda>(bus, byte1, i, s). 7 - i)") auto

text \<open>
  \<^verbatim>\<open>isDevice16Bit\<close>. The first argument says whether the build defines
  \<^verbatim>\<open>USE_16BIT_ADDR\<close>, in which case the function returns 1 without touching the bus.
\<close>

definition isDevice16Bit :: "bool \<Rightarrow> 's smbus \<Rightarrow> 's \<Rightarrow> int \<times> 's" where
  "isDevice16Bit use_16bit_addr bus s =
     (if use_16bit_addr then (1, s)
      else
        (case smbus_read_byte_data bus 0 s of (byte1, s') \<Rightarrow>
           if byte1 < 0 then (byte1, s') else probeLoop bus byte1 0 s'))"

text \<open>
  For stating properties of the probe: the outcome of the \<open>k\<close>-th of a run of
  consecutive reads of register 0 (counting from 0) that starts in state \<open>s\<close>, and
  the state it leaves.
\<close>

fun readsFrom :: "'s smbus \<Rightarrow> 's \<Rightarrow> nat \<Rightarrow> int \<times> 's" where
  "readsFrom bus s 0 = smbus_read_byte_data bus 0 s"
| "readsFrom bus s (Suc k) = smbus_read_byte_data bus 0 (snd (readsFrom bus s k))"

text \<open>
  A simulated bus whose register reads follow a script: the state counts the reads done
  so far and the \<open>n\<close>-th read returns \<open>script n\<close>. The other calls fail.
\<close>

definition scriptedBus :: "(nat \<Rightarrow> int) \<Rightarrow> nat smbus" where
  "scriptedBus script =
     \<lparr> ioctl_slave_force = (\<lambda>addr n. (-1, n)),
       smbus_read_byte = (\<lambda>n. (-1, n)),
       smbus_read_byte_data = (\<lambda>reg n. (script n, n + 1)),
       smbus_write_byte_data = (\<lambda>reg v n. (-1, n)),
       smbus_read_i2c_block_data = (\<lambda>reg len n. ((-1, []), n)) \<rparr>"

section \<open>Strings and the C library calls of the decoder\<close>

text \<open>
  A \<^verbatim>\<open>std::string\<close> is a sequence of bytes. String literals of the source are
  written as HOL strings and converted with \<open>str_bytes\<close>.
\<close>

type_synonym cstring = "byte list"

definition str_bytes :: "string \<Rightarrow> cstring" where
  "str_bytes s = map of_char s"

text \<open>
  The value of a \<^verbatim>\<open>char\<close> converted to \<^verbatim>\<open>int\<close>. Whether \<^verbatim>\<open>char\<close> is signed is
  fixed by the platform (unsigned on the Arm targets, signed on x86), so it is a
  parameter of every function that converts one.
\<close>

definition char_int :: "bool \<Rightarrow> byte \<Rightarrow> int" where
  "char_int char_signed c = (if char_signed then sint c else uint c)"

text \<open>\<^verbatim>\<open>std::to_string(int)\<close>: decimal digits, with a minus sign for a negative value.\<close>

function dec_digits :: "nat \<Rightarrow> cstring" where
  "dec_digits n = (if n < 10 then [of_nat (48 + n)] else dec_digits (n div 10) @ [of_nat (48 + n mod 10)])"
  by pat_completeness auto
termination
  by (relation "measure id") auto

definition to_string :: "int \<Rightarrow> cstring" where
  "to_string i = (if i < 0 then str_bytes ''-'' @ dec_digits (nat (- i)) else dec_digits (nat i))"

text \<open>\<^verbatim>\<open>struct tm\<close> of \<^verbatim>\<open><ctime>\<close>.\<close>

record tm =
  tm_sec :: int
  tm_min :: int
  tm_hour :: int
  tm_mday :: int
  tm_mon :: int
  tm_year :: int
  tm_wday :: int
  tm_yday :: int
  tm_isdst :: int

text \<open>
  Days between 1970-01-01 and a day of the proleptic Gregorian calendar, linear in the
  day of the month, so that day 0 of a month is the last day of the month before.
\<close>

definition days_from_civil :: "int \<Rightarrow> int \<Rightarrow> int \<Rightarrow> int" where
  "days_from_civil y m d =
     (let y1 = (if m \<le> 2 then y - 1 else y);
          era = y1 div 400;
          yoe = y1 - era * 400;
          doy = (153 * (if m > 2 then m - 3 else m + 9) + 2) div 5 + d - 1;
          doe = yoe * 365 + yoe div 4 - yoe div 100 + doy
      in era * 146097 + doe - 719468)"

text \<open>
  \<^verbatim>\<open>mktime\<close> of the C library, for a month field in 0..11: the broken-down time is
  read as local time, with out-of-range days normalised. \<open>utc_offset\<close> is the
  number of seconds the local zone of the process is ahead of UTC at that time.
\<close>

definition mktime :: "int \<Rightarrow> tm \<Rightarrow> int" where
  "mktime utc_offset t =
     days_from_civil (1900 + tm_year t) (tm_mon t + 1) (tm_mday t) * 86400
       + tm_hour t * 3600 + tm_min t * 60 + tm_sec t - utc_offset"

text \<open>\<^verbatim>\<open>gmtime\<close> of the C library: seconds since 1970-01-01T00:00:00Z to UTC calendar time.\<close>

definition gmtime :: "int \<Rightarrow> tm" where
  "gmtime t =
     (let days = t div 86400;
          secs = t mod 86400;
          z = days + 719468;
          era = z div 146097;
          doe = z - era * 146097;
          yoe = (doe - doe div 1460 + doe div 36524 - doe div 146096) div 365;
          doy = doe - (365 * yoe + yoe div 4 - yoe div 100);
          mp = (5 * doy + 2) div 153;
          d = doy - (153 * mp + 2) div 5 + 1;
          m = (if mp < 10 then mp + 3 else mp - 9);
          y = yoe + era * 400 + (if m \<le> 2 then 1 else 0)
      in \<lparr> tm_sec = secs mod 60, tm_min = (secs div 60) mod 60, tm_hour = secs div 3600,
           tm_mday = d, tm_mon = m - 1, tm_year = y - 1900,
           tm_wday = (days + 4) mod 7, tm_yday = days - days_from_civil y 1 1,
           tm_isdst = 0 \<rparr>)"

text \<open>
  \<^verbatim>\<open>asctime\<close> of the C library, which prints with the format
  \<^verbatim>\<open>"%.3s %.3s%3d %.2d:%.2d:%.2d %d\n"\<close>: weekday name, month name, day of the
  month padded to three columns, time of day, year, newline.
\<close>

definition wday_name :: "string list" where
  "wday_name = [''Sun'', ''Mon'', ''Tue'', ''Wed'', ''Thu'', ''Fri'', ''Sat'']"

definition mon_name :: "string list" where
  "mon_name = [''Jan'', ''Feb'', ''Mar'', ''Apr'', ''May'', ''Jun'',
               ''Jul'', ''Aug'', ''Sep'', ''Oct'', ''Nov'', ''Dec'']"

definition pad_left :: "nat \<Rightarrow> byte \<Rightarrow> cstring \<Rightarrow> cstring" where
  "pad_left w c s = replicate (w - length s) c @ s"

definition asctime :: "tm \<Rightarrow> cstring" where
  "asctime t =
     str_bytes (wday_name ! nat (tm_wday t)) @ str_bytes '' '' @
     str_bytes (mon_name ! nat (tm_mon t)) @
     pad_left 3 0x20 (to_string (tm_mday t)) @ str_bytes '' '' @
     pad_left 2 0x30 (to_string (tm_hour t)) @ str_bytes '':'' @
     pad_left 2 0x30 (to_string (tm_min t)) @ str_bytes '':'' @
     pad_left 2 0x30 (to_string (tm_sec t)) @ str_bytes '' '' @
     to_string (1900 + tm_year t) @ [0x0A]"

section \<open>FRU decoder (formatFru, FruDevice.cpp 454-603)\<close>

definition FRU_AREAS :: "string list" where
  "FRU_AREAS = [''INTERNAL'', ''CHASSIS'', ''BOARD'', ''PRODUCT'', ''MULTIRECORD'']"

definition CHASSIS_FRU_AREAS :: "string list" where
  "CHASSIS_FRU_AREAS = [''PART_NUMBER'', ''SERIAL_NUMBER'', ''INFO_AM1'', ''INFO_AM2'']"

definition BOARD_FRU_AREAS :: "string list" where
  "BOARD_FRU_AREAS = [''MANUFACTURER'', ''PRODUCT_NAME'', ''SERIAL_NUMBER'', ''PART_NUMBER'',
                      ''FRU_VERSION_ID'', ''INFO_AM1'', ''INFO_AM2'']"

definition PRODUCT_FRU_AREAS :: "string list" where
  "PRODUCT_FRU_AREAS = [''MANUFACTURER'', ''PRODUCT_NAME'', ''PART_NUMBER'', ''VERSION'',
                        ''SERIAL_NUMBER'', ''ASSET_TAG'', ''FRU_VERSION_ID'', ''INFO_AM1'',
                        ''INFO_AM2'']"

text \<open>\<^verbatim>\<open>intelEpoch\<close>: a zeroed \<^verbatim>\<open>std::tm\<close> whose only assigned field is the year.\<close>

definition intelEpoch :: tm where
  "intelEpoch = \<lparr> tm_sec = 0, tm_min = 0, tm_hour = 0, tm_mday = 0, tm_mon = 0,
                   tm_year = 1996 - 1900, tm_wday = 0, tm_yday = 0, tm_isdst = 0 \<rparr>"

text \<open>
  The erase of lines 572-575: everything after the last non-NUL character is removed.
\<close>

definition stripTrailingNul :: "cstring \<Rightarrow> cstring" where
  "stripTrailingNul v = rev (dropWhile (\<lambda>ch. ch = 0) (rev v))"

text \<open>
  The decoded map \<^verbatim>\<open>flat_map<std::string, std::string>\<close>; \<^verbatim>\<open>result[k] = v\<close>
  inserts or overwrites.
\<close>

type_synonym fru_map = "string \<rightharpoonup> cstring"

text \<open>
  The field loop of lines 548-598, \<^verbatim>\<open>for (auto& field : *fieldData)\<close>. The iterator
  \<^verbatim>\<open>fruBytesIter\<close> is the index \<open>pos\<close>. \<open>None\<close> is \<^verbatim>\<open>return false\<close>; \<open>Some\<close>
  is the map when the loop ends, by \<^verbatim>\<open>break\<close> at a byte 0xC1 or by running out of
  field names. When a field's declared length reaches beyond the vector the source
  builds the value from bytes outside it and then returns false at line 596; the value
  is never seen by a caller, and \<open>take\<close> stands for it here.
\<close>

fun fieldLoop :: "byte list \<Rightarrow> string \<Rightarrow> string list \<Rightarrow> nat \<Rightarrow> fru_map \<Rightarrow> fru_map option" where
  "fieldLoop fruBytes area [] pos result = Some result"
| "fieldLoop fruBytes area (field # names) pos result =
     (if pos \<ge> length fruBytes then None
      else if fruBytes ! pos = 0xC1 then Some result
      else
        (let len = unat (fruBytes ! pos AND 0x3f);
             pos1 = pos + 1
         in if pos1 \<ge> length fruBytes then None
            else
              (let val = stripTrailingNul (take len (drop pos1 fruBytes));
                   result1 = result(area @ ''_'' @ field \<mapsto> val);
                   pos2 = pos1 + len
               in if pos2 \<ge> length fruBytes then None
                  else fieldLoop fruBytes area names pos2 result1)))"

text \<open>
  What \<^verbatim>\<open>formatFru\<close> does: it returns true with the filled map, returns false (every
  caller then drops the map), or, on a platform with signed \<^verbatim>\<open>char\<close>, runs into
  behaviour the source does not determine.
\<close>

datatype fru_outcome = Decoded fru_map | Failed | Unpredictable

text \<open>
  Lines 523-533: the manufacture date. The three bytes are combined in \<^verbatim>\<open>int\<close> and
  stored in an \<^verbatim>\<open>unsigned int\<close>; \<^verbatim>\<open>minutes * 60\<close> is a 32-bit product.
\<close>

definition boardMinutes :: "byte \<Rightarrow> byte \<Rightarrow> byte \<Rightarrow> 32 word" where
  "boardMinutes b0 b1 b2 = ucast b0 OR push_bit 8 (ucast b1) OR push_bit 16 (ucast b2)"

definition boardDate :: "int \<Rightarrow> 32 word \<Rightarrow> cstring" where
  "boardDate utc_offset minutes =
     (let fruTime = intelEpoch;
          timeValue = mktime utc_offset fruTime;
          timeValue = timeValue + uint (minutes * 60);
          fruTime = gmtime timeValue
      in butlast (asctime fruTime))"

text \<open>
  The area loop of lines 486-600, \<^verbatim>\<open>for (const std::string& area : FRU_AREAS)\<close>;
  \<open>idx\<close> is the iterator \<^verbatim>\<open>fruAreaOffsetField\<close>, advanced at the top of each round.

  With a signed \<^verbatim>\<open>char\<close>, an offset byte of 0x80 or more is negative, the
  \<^verbatim>\<open>size_t\<close> offset wraps and the cursor points before the vector: \<open>Unpredictable\<close>.
  So is a date byte of 0x80 or more there: it is sign-extended, shifting it is undefined
  and the sum depends on the width of \<^verbatim>\<open>time_t\<close>.

  In the BOARD branch the source reads the three date bytes after checking only the
  first against the end. When the second or third lies outside the vector the cursor,
  advanced by 3, is beyond the end and the first test of the field loop returns false;
  the model returns \<open>Failed\<close> for that case before forming the date.
\<close>

fun areaLoop :: "bool \<Rightarrow> int \<Rightarrow> byte list \<Rightarrow> string list \<Rightarrow> nat \<Rightarrow> fru_map \<Rightarrow> fru_outcome" where
  "areaLoop char_signed utc_offset fruBytes [] idx result = Decoded result"
| "areaLoop char_signed utc_offset fruBytes (area # areas) idx result =
     (let idx1 = idx + 1
      in if idx1 \<ge> length fruBytes then Failed
         else if char_signed \<and> fruBytes ! idx1 \<ge> 0x80 then Unpredictable
         else
           (let offset = unat (fruBytes ! idx1) * 8
            in if offset > 1 then
                 (let pos = offset + 2
                  in if pos \<ge> length fruBytes then Failed
                     else if area = ''CHASSIS'' then
                       (let result1 = result(''CHASSIS_TYPE'' \<mapsto>
                                        to_string (char_int char_signed (fruBytes ! pos)))
                        in case fieldLoop fruBytes area CHASSIS_FRU_AREAS (pos + 1) result1 of
                             None \<Rightarrow> Failed
                           | Some result2 \<Rightarrow>
                               areaLoop char_signed utc_offset fruBytes areas idx1 result2)
                     else if area = ''BOARD'' then
                       (let result1 = result(''BOARD_LANGUAGE_CODE'' \<mapsto>
                                        to_string (char_int char_signed (fruBytes ! pos)));
                            pos1 = pos + 1
                        in if pos1 \<ge> length fruBytes then Failed
                           else if pos1 + 2 \<ge> length fruBytes then Failed
                           else if char_signed \<and>
                                   (fruBytes ! pos1 \<ge> 0x80 \<or> fruBytes ! (pos1 + 1) \<ge> 0x80 \<or>
                                    fruBytes ! (pos1 + 2) \<ge> 0x80) then Unpredictable
                           else
                             (let minutes = boardMinutes (fruBytes ! pos1) (fruBytes ! (pos1 + 1))
                                              (fruBytes ! (pos1 + 2));
                                  result2 = result1(''BOARD_MANUFACTURE_DATE'' \<mapsto>
                                              boardDate utc_offset minutes)
                              in case fieldLoop fruBytes area BOARD_FRU_AREAS (pos1 + 3) result2 of
                                   None \<Rightarrow> Failed
                                 | Some result3 \<Rightarrow>
                                     areaLoop char_signed utc_offset fruBytes areas idx1 result3))
                     else if area = ''PRODUCT'' then
                       (let result1 = result(''PRODUCT_LANGUAGE_CODE'' \<mapsto>
                                        to_string (char_int char_signed (fruBytes ! pos)))
                        in case fieldLoop fruBytes area PRODUCT_FRU_AREAS (pos + 1) result1 of
                             None \<Rightarrow> Failed
                           | Some result2 \<Rightarrow>
                               areaLoop char_signed utc_offset fruBytes areas idx1 result2)
                     else areaLoop char_signed utc_offset fruBytes areas idx1 result)
               else areaLoop char_signed utc_offset fruBytes areas idx1 result))"

text \<open>
  \<^verbatim>\<open>formatFru\<close>. The caller's map is passed in as \<open>result\<close>; both callers pass an
  empty one.
\<close>

definition formatFru :: "bool \<Rightarrow> int \<Rightarrow> byte list \<Rightarrow> fru_map \<Rightarrow> fru_outcome" where
  "formatFru char_signed utc_offset fruBytes result =
     (if length fruBytes \<le> 8 then Failed
      else
        (let result1 = result(''Common_Format_Version'' \<mapsto>
                         to_string (char_int char_signed (fruBytes ! 0)))
         in areaLoop char_signed utc_offset fruBytes FRU_AREAS 0 result1))"



section \<open>Publishing a decoded FRU (AddFruObjectToDbus, FruDevice.cpp 623-724)\<close>

text \<open>
  Lines 630-636: the device is decoded first, and when \<^verbatim>\<open>formatFru\<close> returns false the
  function logs and returns before any object is created. \<open>Formatted\<close> stands for the
  rest of the function (choice of the object path, the duplicate check on mux buses and
  the registration of the properties), which is not modelled.
\<close>

datatype add_outcome = NotPublished | Formatted fru_map | UnpredictableAdd

definition AddFruObjectToDbus :: "bool \<Rightarrow> int \<Rightarrow> byte list \<Rightarrow> add_outcome" where
  "AddFruObjectToDbus char_signed utc_offset device =
     (case formatFru char_signed utc_offset device Map.empty of
        Failed \<Rightarrow> NotPublished
      | Unpredictable \<Rightarrow> UnpredictableAdd
      | Decoded formattedFru \<Rightarrow> Formatted formattedFru)"

section \<open>FRU writer (writeFru, FruDevice.cpp 745-834)\<close>

definition MAX_FRU_SIZE :: nat where "MAX_FRU_SIZE = 512"

definition MAX_EEPROM_PAGE_INDEX :: nat where "MAX_EEPROM_PAGE_INDEX = 255"

definition RETRY_MAX :: nat where "RETRY_MAX = 2"

text \<open>
  What the writer does to the outside, in order: forcing a slave address (with the
  address and the return value of \<^verbatim>\<open>ioctl\<close>), writing a byte to a register (register,
  value, return value), sleeping for a number of milliseconds, closing the bus
  handle, and writing the baseboard file.
\<close>

datatype io_event =
    SlaveForce int int
  | WriteByteData byte byte int
  | SleepMs nat
  | CloseFile
  | FileWrite "byte list"

text \<open>
  \<^verbatim>\<open>writeFru\<close> returns true or false or throws \<^verbatim>\<open>DBusInternalError\<close>; on a
  platform with signed \<^verbatim>\<open>char\<close> the decoder it calls may be unpredictable.
\<close>

datatype write_outcome = ReturnsTrue | ReturnsFalse | ThrowsInternalError | UnpredictableWrite

text \<open>
  The parts of the environment the writer tests: whether the baseboard file stream is
  good after opening, whether it is good after the write, and whether \<^verbatim>\<open>open\<close> of
  the bus device node succeeds.
\<close>

record write_env =
  baseboard_open_good :: bool
  baseboard_write_good :: bool
  i2c_open_ok :: bool

text \<open>
  Lines 797-809, the head of each round of the write loop: at an index that is a
  non-zero multiple of 256, and only when \<^verbatim>\<open>retries\<close> still has its initial value,
  \<^verbatim>\<open>++address\<close> is forced as the slave address (\<^verbatim>\<open>address\<close> is a \<^verbatim>\<open>uint8_t\<close>, so
  the increment wraps). The result says whether the loop goes on, and gives the
  address, the bus state and the events so far.
\<close>

definition pageSwitch ::
    "'s smbus \<Rightarrow> nat \<Rightarrow> nat \<Rightarrow> byte \<Rightarrow> 's \<Rightarrow> bool \<times> byte \<times> 's \<times> io_event list" where
  "pageSwitch busdev index retries address s =
     (if (index \<noteq> 0 \<and> index mod (MAX_EEPROM_PAGE_INDEX + 1) = 0) \<and> retries = RETRY_MAX
      then (case ioctl_slave_force busdev (uint (address + 1)) s of
              (r, s') \<Rightarrow> (\<not> r < 0, address + 1, s', [SlaveForce (uint (address + 1)) r]))
      else (True, address, s, []))"

text \<open>
  The loop \<^verbatim>\<open>while (index < fru.size())\<close> of lines 795-830. \<^verbatim>\<open>index\<close> is a
  \<^verbatim>\<open>uint16_t\<close>; the loop is reached only with \<^verbatim>\<open>fru.size() \<le> 512\<close>, so it never
  wraps and is a natural number here. The register is \<^verbatim>\<open>static_cast<uint8_t>(index)\<close>.
  The test \<^verbatim>\<open>if (!retries--)\<close> throws when \<^verbatim>\<open>retries\<close> is 0 and otherwise leaves it
  one smaller; the sleep of line 829 follows every attempt that does not throw. The
  result is the outcome, the events in order and the final bus state.
\<close>

function writeLoop ::
    "'s smbus \<Rightarrow> byte list \<Rightarrow> nat \<Rightarrow> nat \<Rightarrow> byte \<Rightarrow> 's \<Rightarrow> write_outcome \<times> io_event list \<times> 's" where
  "writeLoop busdev fru index retries address s =
     (if index < length fru then
        (case pageSwitch busdev index retries address s of
           (set_ok, address1, s1, evs1) \<Rightarrow>
             if \<not> set_ok then (ThrowsInternalError, evs1 @ [CloseFile], s1)
             else
               (case smbus_write_byte_data busdev (of_nat index) (fru ! index) s1 of
                  (r, s2) \<Rightarrow>
                    if r < 0 then
                      (if retries = 0 then
                         (ThrowsInternalError,
                          evs1 @ [WriteByteData (of_nat index) (fru ! index) r, CloseFile], s2)
                       else
                         (case writeLoop busdev fru index (retries - 1) address1 s2 of
                            (res, evs, s3) \<Rightarrow>
                              (res, evs1 @ [WriteByteData (of_nat index) (fru ! index) r, SleepMs 10] @ evs, s3)))
                    else
                      (case writeLoop busdev fru (index + 1) RETRY_MAX address1 s2 of
                         (res, evs, s3) \<Rightarrow>
                           (res, evs1 @ [WriteByteData (of_nat index) (fru ! index) r, SleepMs 10] @ evs, s3))))
      else (ReturnsTrue, [CloseFile], s))"
  by pat_completeness auto
termination
  by (relation "measure (\<lambda>(busdev, fru, index, retries, address, s). 3 * (length fru - index) + retries)")
     (auto simp: RETRY_MAX_def)

declare writeLoop.simps [simp del]

text \<open>
  \<^verbatim>\<open>writeFru\<close>. The baseboard FRU is bus 0, address 0 and goes to a file; any other
  target is written over the bus.
\<close>

definition writeFru ::
    "bool \<Rightarrow> int \<Rightarrow> write_env \<Rightarrow> 's smbus \<Rightarrow> byte \<Rightarrow> byte \<Rightarrow> byte list \<Rightarrow> 's \<Rightarrow>
       write_outcome \<times> io_event list \<times> 's" where
  "writeFru char_signed utc_offset env busdev bus address fru s =
     (if length fru > MAX_FRU_SIZE then (ReturnsFalse, [], s)
      else
        (case formatFru char_signed utc_offset fru Map.empty of
           Failed \<Rightarrow> (ReturnsFalse, [], s)
         | Unpredictable \<Rightarrow> (UnpredictableWrite, [], s)
         | Decoded tmp \<Rightarrow>
             if bus = 0 \<and> address = 0 then
               (if \<not> baseboard_open_good env then (ThrowsInternalError, [], s)
                else ((if baseboard_write_good env then ReturnsTrue else ReturnsFalse),
                      [FileWrite fru], s))
             else if \<not> i2c_open_ok env then (ThrowsInternalError, [], s)
             else
               (case ioctl_slave_force busdev (uint address) s of
                  (r, s1) \<Rightarrow>
                    if r < 0 then
                      (ThrowsInternalError, [SlaveForce (uint address) r, CloseFile], s1)
                    else
                      (case writeLoop busdev fru 0 RETRY_MAX address s1 of
                         (res, evs, s2) \<Rightarrow> (res, SlaveForce (uint address) r # evs, s2)))))"

text \<open>
  The method \<^verbatim>\<open>WriteFru\<close> registered in \<^verbatim>\<open>main\<close> (lines 933-943): a false result
  becomes \<^verbatim>\<open>std::invalid_argument\<close>, an exception of \<^verbatim>\<open>writeFru\<close> passes through,
  and after a true result \<^verbatim>\<open>rescanBusses\<close> is called.
\<close>

datatype dbus_reply = InvalidArgument | InternalError | RescanScheduled | UnpredictableReply

definition WriteFru ::
    "bool \<Rightarrow> int \<Rightarrow> write_env \<Rightarrow> 's smbus \<Rightarrow> byte \<Rightarrow> byte \<Rightarrow> byte list \<Rightarrow> 's \<Rightarrow> dbus_reply" where
  "WriteFru char_signed utc_offset env busdev bus address data s =
     (case fst (writeFru char_signed utc_offset env busdev bus address data s) of
        ReturnsFalse \<Rightarrow> InvalidArgument
      | ThrowsInternalError \<Rightarrow> InternalError
      | UnpredictableWrite \<Rightarrow> UnpredictableReply
      | ReturnsTrue \<Rightarrow> RescanScheduled)"

text \<open>
  The write procedure in the words of the specification, to compare the loop with.
  \<open>tryByte\<close> writes one byte to a register: an attempt that succeeds is followed by a
  sleep of 10 ms; an attempt that fails is repeated after the sleep while additional
  attempts are left, \<open>extra\<close> of them at the start; when none is left the byte has
  failed.
\<close>

primrec tryByte :: "'s smbus \<Rightarrow> byte \<Rightarrow> byte \<Rightarrow> nat \<Rightarrow> 's \<Rightarrow> bool \<times> io_event list \<times> 's" where
  "tryByte busdev reg v 0 s =
     (case smbus_write_byte_data busdev reg v s of
        (r, s') \<Rightarrow>
          if r < 0 then (False, [WriteByteData reg v r], s')
          else (True, [WriteByteData reg v r, SleepMs 10], s'))"
| "tryByte busdev reg v (Suc extra) s =
     (case smbus_write_byte_data busdev reg v s of
        (r, s') \<Rightarrow>
          if r < 0 then
            (case tryByte busdev reg v extra s' of
               (ok, evs, s'') \<Rightarrow> (ok, [WriteByteData reg v r, SleepMs 10] @ evs, s''))
          else (True, [WriteByteData reg v r, SleepMs 10], s'))"

text \<open>
  \<open>writeBytes\<close> writes the bytes from \<open>index\<close> on, one at a time, each with up to two
  additional attempts, at the register \<open>index mod 256\<close>. Before the first attempt at an
  index that is a non-zero multiple of 256 it moves to the next slave address. A byte
  that has failed, or a slave address that cannot be set, ends the request with the
  internal error after closing the handle.
\<close>

function writeBytes ::
    "'s smbus \<Rightarrow> byte list \<Rightarrow> nat \<Rightarrow> byte \<Rightarrow> 's \<Rightarrow> write_outcome \<times> io_event list \<times> 's" where
  "writeBytes busdev fru index address s =
     (if index < length fru then
        (let crossing = (index \<noteq> 0 \<and> index mod 256 = 0);
             address1 = (if crossing then address + 1 else address);
             (r0, s1) = (if crossing then ioctl_slave_force busdev (uint address1) s else (0, s));
             evs1 = (if crossing then [SlaveForce (uint address1) r0] else [])
         in if r0 < 0 then (ThrowsInternalError, evs1 @ [CloseFile], s1)
            else
              (case tryByte busdev (of_nat (index mod 256)) (fru ! index) 2 s1 of
                 (ok, evs2, s2) \<Rightarrow>
                   if \<not> ok then (ThrowsInternalError, evs1 @ evs2 @ [CloseFile], s2)
                   else
                     (case writeBytes busdev fru (index + 1) address1 s2 of
                        (res, evs, s3) \<Rightarrow> (res, evs1 @ evs2 @ evs, s3))))
      else (ReturnsTrue, [CloseFile], s))"
  by pat_completeness auto
termination
  by (relation "measure (\<lambda>(busdev, fru, index, address, s). length fru - index)") auto

declare writeBytes.simps [simp del]

text \<open>A simulated bus on which every call succeeds; it has no state.\<close>

definition okBus :: "unit smbus" where
  "okBus =
     \<lparr> ioctl_slave_force = (\<lambda>addr u. (0, u)),
       smbus_read_byte = (\<lambda>u. (0, u)),
       smbus_read_byte_data = (\<lambda>reg u. (0, u)),
       smbus_write_byte_data = (\<lambda>reg v u. (0, u)),
       smbus_read_i2c_block_data = (\<lambda>reg len u. ((uint len, replicate (unat len) 0), u)) \<rparr>"

section \<open>Theorems\<close>

subsection \<open>Header validator\<close>

lemma low8_of_word:
  fixes x :: "'w::len word"
  shows "uint (x AND 255) = uint x mod 256"
proof -
  have "x AND 255 = x AND mask 8"
    by (simp add: mask_eq_exp_minus_1)
  also have "\<dots> = take_bit 8 x"
    by (simp only: take_bit_eq_mask)
  finally have "uint (x AND 255) = take_bit 8 (uint x)"
    by (simp only: unsigned_take_bit_eq)
  then show ?thesis by (simp only: take_bit_eq_mod) simp
qed

lemma dvd256: "8 \<le> n \<Longrightarrow> (256::int) dvd 2 ^ n"
proof -
  assume "8 \<le> n"
  then have "(2::int) ^ 8 dvd 2 ^ n" by (rule le_imp_power_dvd)
  then show ?thesis by simp
qed

lemma uint_mod256:
  fixes x :: "'w::len word"
  assumes "8 \<le> LENGTH('w)"
  shows "uint (word_of_int k :: 'w word) mod 256 = k mod 256"
proof -
  have "uint (word_of_int k :: 'w word) = k mod 2 ^ LENGTH('w)"
    by (rule uint_word_of_int)
  then show ?thesis
    using mod_mod_cancel[OF dvd256[OF assms], of k] by (simp only:)
qed

lemma word_as_of_int: 
  "(256 - (ucast (b0::byte) + ucast (b1::byte) + ucast (b2::byte) + ucast (b3::byte) + ucast (b4::byte) + ucast (b5::byte) + ucast (b6::byte)) :: 'w::len word)
   = word_of_int (256 - (uint b0 + uint b1 + uint b2 + uint b3 + uint b4 + uint b5 + uint b6))"
proof -
  have "(256 :: 'w word) = word_of_int 256" by simp
  then show ?thesis
    unfolding ucast_eq by (simp only: wi_hom_add wi_hom_sub)
qed

lemma uint_ucast_byte:
  assumes "8 \<le> LENGTH('w::len)"
  shows "uint (ucast (b::byte) :: 'w word) = uint b"
  using assms by (simp add: uint_up_ucast is_up)

lemma checksum_iff:
  assumes "8 \<le> LENGTH('w::len)"
  shows "((256 - (ucast (b0::byte) + ucast (b1::byte) + ucast (b2::byte) + ucast (b3::byte) + ucast (b4::byte) + ucast (b5::byte) + ucast (b6::byte)) :: 'w word) AND 255 = ucast (b7::byte))
    \<longleftrightarrow> (256 - (uint b0 + uint b1 + uint b2 + uint b3 + uint b4 + uint b5 + uint b6)) mod 256 = uint b7"
proof -
  have "uint b7 < 256" using uint_lt2p[of b7] by simp
  then show ?thesis
  unfolding word_as_of_int word_uint_eq_iff low8_of_word uint_mod256[OF assms] uint_ucast_byte[OF assms]
  by simp
qed

lemma checkOffsets_unroll:
  "checkOffsets bd 1 {} = distinct (filter (\<lambda>b. b \<noteq> 0) [bd!1, bd!2, bd!3, bd!4, bd!5])"
  by (simp add: numeral_eq_Suc) 

lemma headerSum_unroll:
  "headerSum bd 0 (0::'w::len word) = ucast (bd!0) + ucast (bd!1) + ucast (bd!2) + ucast (bd!3) + ucast (bd!4) + ucast (bd!5) + ucast (bd!6)"
  by (simp add: numeral_eq_Suc)

lemma ball_1_5: "(\<forall>i\<in>{1..5::nat}. P i) = (P 1 \<and> P 2 \<and> P 3 \<and> P 4 \<and> P 5)"
proof -
  have "{1..5::nat} = {1,2,3,4,5}" by auto
  then show ?thesis by simp
qed

lemma sum_lt7: "(\<Sum>j<7. f j) = (f 0 + f 1 + f 2 + f 3 + f 4 + f 5 + f (6::nat) :: int)"
  by (simp add: numeral_eq_Suc)

lemma offsets_spec_iff:
  "distinct (filter (\<lambda>b. b \<noteq> 0) [b1, b2, b3, b4, b5 :: byte]) \<longleftrightarrow>
    ((b1 = 0 \<or> ((b2 \<noteq> 0 \<longrightarrow> b2 \<noteq> b1) \<and> (b3 \<noteq> 0 \<longrightarrow> b3 \<noteq> b1) \<and> (b4 \<noteq> 0 \<longrightarrow> b4 \<noteq> b1) \<and> (b5 \<noteq> 0 \<longrightarrow> b5 \<noteq> b1))) \<and>
     (b2 = 0 \<or> ((b1 \<noteq> 0 \<longrightarrow> b1 \<noteq> b2) \<and> (b3 \<noteq> 0 \<longrightarrow> b3 \<noteq> b2) \<and> (b4 \<noteq> 0 \<longrightarrow> b4 \<noteq> b2) \<and> (b5 \<noteq> 0 \<longrightarrow> b5 \<noteq> b2))) \<and>
     (b3 = 0 \<or> ((b1 \<noteq> 0 \<longrightarrow> b1 \<noteq> b3) \<and> (b2 \<noteq> 0 \<longrightarrow> b2 \<noteq> b3) \<and> (b4 \<noteq> 0 \<longrightarrow> b4 \<noteq> b3) \<and> (b5 \<noteq> 0 \<longrightarrow> b5 \<noteq> b3))) \<and>
     (b4 = 0 \<or> ((b1 \<noteq> 0 \<longrightarrow> b1 \<noteq> b4) \<and> (b2 \<noteq> 0 \<longrightarrow> b2 \<noteq> b4) \<and> (b3 \<noteq> 0 \<longrightarrow> b3 \<noteq> b4) \<and> (b5 \<noteq> 0 \<longrightarrow> b5 \<noteq> b4))) \<and>
     (b5 = 0 \<or> ((b1 \<noteq> 0 \<longrightarrow> b1 \<noteq> b5) \<and> (b2 \<noteq> 0 \<longrightarrow> b2 \<noteq> b5) \<and> (b3 \<noteq> 0 \<longrightarrow> b3 \<noteq> b5) \<and> (b4 \<noteq> 0 \<longrightarrow> b4 \<noteq> b5))))"
  by auto

lemma offsets_ball_iff:
  "(\<forall>i\<in>{1..5}. bd ! i = 0 \<or> (\<forall>j\<in>{1..5}. j \<noteq> i \<longrightarrow> bd ! j \<noteq> 0 \<longrightarrow> bd ! j \<noteq> bd ! i))
   \<longleftrightarrow> distinct (filter (\<lambda>b. b \<noteq> 0) [bd!1, bd!2, bd!3, bd!4, bd!5 :: byte])"
  unfolding offsets_spec_iff ball_1_5 by simp

text \<open>
  Claim C1. For every block whose first eight bytes are present, \<^const>\<open>validateHeader\<close>
  accepts exactly when byte 0 is 1, byte 6 is 0, each of bytes 1..5 is zero or differs
  from every other non-zero byte among bytes 1..5, and \<open>(256 - sum of bytes 0..6) mod 256\<close>
  equals byte 7. This holds for every width of \<^verbatim>\<open>size_t\<close> of at least eight bits.
  The header \<open>01 00 01 00 00 00 00 FE\<close> is accepted; it is rejected once byte 0 is
  changed to 2, byte 6 to 1, or bytes 1 and 2 both set to 1.
\<close>

theorem validateHeader_iff:
  fixes blockData :: "byte list"
  assumes "8 \<le> LENGTH('w::len)" and "8 \<le> length blockData"
  shows "(validateHeader TYPE('w) blockData \<longleftrightarrow>
     (blockData ! 0 = 1 \<and> blockData ! 6 = 0 \<and>
      (\<forall>i\<in>{1..5}. blockData ! i = 0 \<or>
          (\<forall>j\<in>{1..5}. j \<noteq> i \<longrightarrow> blockData ! j \<noteq> 0 \<longrightarrow> blockData ! j \<noteq> blockData ! i)) \<and>
      (256 - (\<Sum>j<7. uint (blockData ! j))) mod 256 = uint (blockData ! 7)))
    \<and> validateHeader TYPE('w) [0x01, 0x00, 0x01, 0x00, 0x00, 0x00, 0x00, 0xFE]
    \<and> \<not> validateHeader TYPE('w) [0x02, 0x00, 0x01, 0x00, 0x00, 0x00, 0x00, 0xFE]
    \<and> \<not> validateHeader TYPE('w) [0x01, 0x00, 0x01, 0x00, 0x00, 0x00, 0x01, 0xFE]
    \<and> \<not> validateHeader TYPE('w) [0x01, 0x01, 0x01, 0x00, 0x00, 0x00, 0x00, 0xFE]"
proof -
  have gen: "validateHeader TYPE('w) bd \<longleftrightarrow>
     (bd ! 0 = 1 \<and> bd ! 6 = 0 \<and>
      (\<forall>i\<in>{1..5}. bd ! i = 0 \<or>
          (\<forall>j\<in>{1..5}. j \<noteq> i \<longrightarrow> bd ! j \<noteq> 0 \<longrightarrow> bd ! j \<noteq> bd ! i)) \<and>
      (256 - (\<Sum>j<7. uint (bd ! j))) mod 256 = uint (bd ! 7))" for bd
    unfolding offsets_ball_iff sum_lt7 validateHeader_def checkOffsets_unroll headerSum_unroll Let_def
      checksum_iff[OF assms(1)]
    by (simp only: if_bool_eq_conj simp_thms) blast
  have ex1: "validateHeader TYPE('w) [0x01, 0x00, 0x01, 0x00, 0x00, 0x00, 0x00, 0xFE]"
    unfolding gen offsets_ball_iff sum_lt7 by simp
  have ex2: "\<not> validateHeader TYPE('w) [0x02, 0x00, 0x01, 0x00, 0x00, 0x00, 0x00, 0xFE]"
    unfolding gen by simp
  have ex3: "\<not> validateHeader TYPE('w) [0x01, 0x00, 0x01, 0x00, 0x00, 0x00, 0x01, 0xFE]"
    unfolding gen by simp
  have ex4: "\<not> validateHeader TYPE('w) [0x01, 0x01, 0x01, 0x00, 0x00, 0x00, 0x00, 0xFE]"
    unfolding gen offsets_ball_iff by simp
  from gen ex1 ex2 ex3 ex4 show ?thesis by blast
qed

text \<open>The theorem at two concrete ten-byte blocks with a 32-bit \<^verbatim>\<open>size_t\<close>.\<close>

theorem validateHeader_iff_witness:
  "validateHeader TYPE(32) [0x01, 0x00, 0x00, 0x02, 0x03, 0x00, 0x00, 0xFA, 0, 0] \<and>
   \<not> validateHeader TYPE(32) [0x01, 0x00, 0x00, 0x02, 0x03, 0x00, 0x00, 0xFB, 0, 0]"
  using validateHeader_iff[where 'w=32, of "[0x01, 0x00, 0x00, 0x02, 0x03, 0x00, 0x00, 0xFA, 0, 0]",
      unfolded ball_1_5 sum_lt7]
    validateHeader_iff[where 'w=32, of "[0x01, 0x00, 0x00, 0x02, 0x03, 0x00, 0x00, 0xFB, 0, 0]",
      unfolded ball_1_5 sum_lt7]
  by simp

subsection \<open>Addressing probe\<close>

lemma probeLoop_step:
  "i < 7 \<Longrightarrow> probeLoop bus b i s =
     (case smbus_read_byte_data bus 0 s of (byte2, s') \<Rightarrow>
           if byte2 < 0 then (byte2, s')
           else if byte2 \<noteq> b then (1, s')
           else probeLoop bus b (i + 1) s')"
  by (subst probeLoop.simps) simp

lemma probeLoop_end: "\<not> i < 7 \<Longrightarrow> probeLoop bus b i s = (0, s)"
  by (subst probeLoop.simps) simp

lemma probeLoop_next:
  assumes "i < 7"
  shows "probeLoop bus b i (snd (readsFrom bus s i)) =
     (if fst (readsFrom bus s (Suc i)) < 0 then readsFrom bus s (Suc i)
      else if fst (readsFrom bus s (Suc i)) \<noteq> b then (1, snd (readsFrom bus s (Suc i)))
      else probeLoop bus b (Suc i) (snd (readsFrom bus s (Suc i))))"
  using assms by (simp add: probeLoop_step split: prod.splits)

lemma probeLoop_all_equal:
  assumes "i \<le> 7" and "0 \<le> b"
    and "\<forall>j. i < j \<and> j \<le> 7 \<longrightarrow> fst (readsFrom bus s j) = b"
  shows "probeLoop bus b i (snd (readsFrom bus s i)) = (0, snd (readsFrom bus s 7))"
  using assms
proof (induction "7 - i" arbitrary: i)
  case 0
  then have "i = 7" by simp
  then show ?case by (simp add: probeLoop_end)
next
  case (Suc d)
  then have lt: "i < 7" by simp
  have rd: "fst (readsFrom bus s (Suc i)) = b" using Suc.prems(3) lt by auto
  have IH: "probeLoop bus b (Suc i) (snd (readsFrom bus s (Suc i))) = (0, snd (readsFrom bus s 7))"
    using Suc.hyps(1)[of "Suc i"] Suc.hyps(2) Suc.prems lt by auto
  show ?case
    unfolding probeLoop_next[OF lt] using rd IH Suc.prems(2) by (simp del: readsFrom.simps)
qed

lemma probeLoop_first_other:
  assumes "i < k" and "k \<le> 7" and "0 \<le> b"
    and "\<forall>j. i < j \<and> j < k \<longrightarrow> fst (readsFrom bus s j) = b"
    and "fst (readsFrom bus s k) \<noteq> b"
  shows "probeLoop bus b i (snd (readsFrom bus s i)) =
           (if fst (readsFrom bus s k) < 0 then fst (readsFrom bus s k) else 1, snd (readsFrom bus s k))"
  using assms
proof (induction "k - Suc i" arbitrary: i)
  case 0
  then have k: "k = Suc i" by simp
  have lt: "i < 7" using 0 by simp
  show ?case unfolding probeLoop_next[OF lt] using 0(6) unfolding k
    by (simp del: readsFrom.simps add: prod_eq_iff)
next
  case (Suc d)
  then have lt: "i < 7" "Suc i < k" by simp_all
  have rd: "fst (readsFrom bus s (Suc i)) = b" using Suc.prems(4) lt by auto
  have IH: "probeLoop bus b (Suc i) (snd (readsFrom bus s (Suc i))) =
           (if fst (readsFrom bus s k) < 0 then fst (readsFrom bus s k) else 1, snd (readsFrom bus s k))"
    using Suc.hyps(1)[of "Suc i"] Suc.hyps(2) Suc.prems lt by auto
  show ?case
    unfolding probeLoop_next[OF lt(1)] using rd IH Suc.prems(3) by (simp del: readsFrom.simps)
qed

lemma isDevice16Bit_readsFrom:
  "isDevice16Bit False bus s =
    (if fst (readsFrom bus s 0) < 0 then readsFrom bus s 0
     else probeLoop bus (fst (readsFrom bus s 0)) 0 (snd (readsFrom bus s 0)))"
  by (simp add: isDevice16Bit_def split: prod.splits)

lemma isDevice16Bit_failed_first:
  assumes "fst (readsFrom bus s 0) < 0"
  shows "isDevice16Bit False bus s = readsFrom bus s 0"
  using assms by (simp only: isDevice16Bit_readsFrom if_True)

lemma isDevice16Bit_all_equal:
  assumes "0 \<le> fst (readsFrom bus s 0)"
    and "\<forall>k\<in>{1..7}. fst (readsFrom bus s k) = fst (readsFrom bus s 0)"
  shows "isDevice16Bit False bus s = (0, snd (readsFrom bus s 7))"
proof -
  have "probeLoop bus (fst (readsFrom bus s 0)) 0 (snd (readsFrom bus s 0)) = (0, snd (readsFrom bus s 7))"
    by (rule probeLoop_all_equal) (use assms in auto)
  then show ?thesis using assms(1) by (simp only: isDevice16Bit_readsFrom) simp
qed

lemma isDevice16Bit_first_other:
  assumes "0 \<le> fst (readsFrom bus s 0)" and "k \<in> {1..7}"
    and "\<forall>j\<in>{1..<k}. fst (readsFrom bus s j) = fst (readsFrom bus s 0)"
    and "fst (readsFrom bus s k) \<noteq> fst (readsFrom bus s 0)"
  shows "isDevice16Bit False bus s =
           (if fst (readsFrom bus s k) < 0 then fst (readsFrom bus s k) else 1, snd (readsFrom bus s k))"
proof -
  have "probeLoop bus (fst (readsFrom bus s 0)) 0 (snd (readsFrom bus s 0)) =
          (if fst (readsFrom bus s k) < 0 then fst (readsFrom bus s k) else 1, snd (readsFrom bus s k))"
    by (rule probeLoop_first_other) (use assms in auto)
  then show ?thesis using assms(1) by (simp only: isDevice16Bit_readsFrom) simp
qed

lemma first_other_read:
  assumes "\<not> (\<forall>k\<in>{1..7}. r k = (b::int))"
  obtains k where "k \<in> {1..7::nat}" and "\<forall>j\<in>{1..<k}. r j = b" and "r k \<noteq> b"
proof -
  from assms have "\<exists>n. 1 \<le> n \<and> n \<le> 7 \<and> r n \<noteq> b" by auto
  then have "\<exists>n. (1 \<le> n \<and> n \<le> 7 \<and> r n \<noteq> b) \<and> (\<forall>m<n. \<not> (1 \<le> m \<and> m \<le> 7 \<and> r m \<noteq> b))"
    by (subst (asm) exists_least_iff)
  then obtain n where n: "1 \<le> n" "n \<le> 7" "r n \<noteq> b"
      and least: "\<forall>m<n. \<not> (1 \<le> m \<and> m \<le> 7 \<and> r m \<noteq> b)" by blast
  have "\<forall>j\<in>{1..<n}. r j = b" using least n(2) by auto
  with n that[of n] show ?thesis by auto
qed

text \<open>
  Claim C8. In a build without \<^verbatim>\<open>USE_16BIT_ADDR\<close> the probe reads register 0,
  then reads register 0 up to seven more times. With \<open>r k\<close> the result of the \<open>k\<close>-th
  read: it returns 1 (16-bit) exactly when the first read succeeds and some later read
  \<open>k \<le> 7\<close> succeeds with a different byte, all reads before it having returned the
  first byte; it returns 0 (8-bit) exactly when the first read succeeds and the seven
  later reads return the same byte, and then eight reads were made. The first
  failing read ends the probe with that read's negative result and nothing is read
  after it; the first differing read also ends it. Reads \<open>0xAA, 0xBB\<close> classify as
  16-bit, constant reads \<open>0xAA\<close> as 8-bit.
\<close>

theorem isDevice16Bit_classifies:
  fixes bus :: "'s smbus" and s :: 's
  shows
   "(fst (isDevice16Bit False bus s) = 1 \<longleftrightarrow>
       0 \<le> fst (readsFrom bus s 0) \<and>
       (\<exists>k\<in>{1..7}. (\<forall>j\<in>{1..<k}. fst (readsFrom bus s j) = fst (readsFrom bus s 0)) \<and>
                    0 \<le> fst (readsFrom bus s k) \<and>
                    fst (readsFrom bus s k) \<noteq> fst (readsFrom bus s 0)))
    \<and> (fst (isDevice16Bit False bus s) = 0 \<longleftrightarrow>
       0 \<le> fst (readsFrom bus s 0) \<and>
       (\<forall>k\<in>{1..7}. fst (readsFrom bus s k) = fst (readsFrom bus s 0)))
    \<and> (0 \<le> fst (readsFrom bus s 0) \<and>
        (\<forall>k\<in>{1..7}. fst (readsFrom bus s k) = fst (readsFrom bus s 0)) \<longrightarrow>
          isDevice16Bit False bus s = (0, snd (readsFrom bus s 7)))
    \<and> (\<forall>k\<in>{1..7}. 0 \<le> fst (readsFrom bus s 0) \<and>
          (\<forall>j\<in>{1..<k}. fst (readsFrom bus s j) = fst (readsFrom bus s 0)) \<and>
          0 \<le> fst (readsFrom bus s k) \<and> fst (readsFrom bus s k) \<noteq> fst (readsFrom bus s 0) \<longrightarrow>
          isDevice16Bit False bus s = (1, snd (readsFrom bus s k)))
    \<and> (\<forall>k\<in>{0..7}. (\<forall>j\<in>{0..<k}. fst (readsFrom bus s j) = fst (readsFrom bus s 0) \<and>
                                  0 \<le> fst (readsFrom bus s j)) \<and>
          fst (readsFrom bus s k) < 0 \<longrightarrow>
          isDevice16Bit False bus s = readsFrom bus s k)
    \<and> isDevice16Bit False (scriptedBus (\<lambda>n. if n = 0 then 0xAA else 0xBB)) 0 = (1, 2)
    \<and> isDevice16Bit False (scriptedBus (\<lambda>n. 0xAA)) 0 = (0, 8)"
proof -
  let ?r = "\<lambda>k. fst (readsFrom bus s k)"
  let ?res = "isDevice16Bit False bus s"
  have eq8: "0 \<le> ?r 0 \<and> (\<forall>k\<in>{1..7}. ?r k = ?r 0) \<longrightarrow> ?res = (0, snd (readsFrom bus s 7))"
    using isDevice16Bit_all_equal[of bus s] by blast
  have other: "\<forall>k\<in>{1..7}. 0 \<le> ?r 0 \<and> (\<forall>j\<in>{1..<k}. ?r j = ?r 0) \<and> ?r k \<noteq> ?r 0 \<longrightarrow>
        ?res = (if ?r k < 0 then ?r k else 1, snd (readsFrom bus s k))"
    using isDevice16Bit_first_other[of bus s] by blast
  have c16: "\<forall>k\<in>{1..7}. 0 \<le> ?r 0 \<and> (\<forall>j\<in>{1..<k}. ?r j = ?r 0) \<and> 0 \<le> ?r k \<and> ?r k \<noteq> ?r 0 \<longrightarrow>
        ?res = (1, snd (readsFrom bus s k))"
    using other by auto
  have fail: "\<forall>k\<in>{0..7}. (\<forall>j\<in>{0..<k}. ?r j = ?r 0 \<and> 0 \<le> ?r j) \<and> ?r k < 0 \<longrightarrow> ?res = readsFrom bus s k"
  proof (intro ballI impI)
    fix k :: nat assume k: "k \<in> {0..7}"
      and h: "(\<forall>j\<in>{0..<k}. ?r j = ?r 0 \<and> 0 \<le> ?r j) \<and> ?r k < 0"
    show "?res = readsFrom bus s k"
    proof (cases "k = 0")
      case True
      then show ?thesis using h isDevice16Bit_failed_first[of bus s] by simp
    next
      case False
      then have k1: "k \<in> {1..7}" using k by auto
      have r0: "0 \<le> ?r 0" using h False by auto
      have pre: "\<forall>j\<in>{1..<k}. ?r j = ?r 0" using h by auto
      have ne: "?r k \<noteq> ?r 0" using h r0 by auto
      have "?res = (if ?r k < 0 then ?r k else 1, snd (readsFrom bus s k))"
        using other k1 r0 pre ne by blast
      then show ?thesis using h by (simp add: prod_eq_iff)
    qed
  qed
  have one: "fst ?res = 1 \<longleftrightarrow>
       0 \<le> ?r 0 \<and> (\<exists>k\<in>{1..7}. (\<forall>j\<in>{1..<k}. ?r j = ?r 0) \<and> 0 \<le> ?r k \<and> ?r k \<noteq> ?r 0)"
  proof
    assume res1: "fst ?res = 1"
    have r0: "0 \<le> ?r 0"
    proof (rule ccontr)
      assume "\<not> 0 \<le> ?r 0"
      then have "?r 0 < 0" by simp
      then show False using isDevice16Bit_failed_first[of bus s] res1 by simp
    qed
    have "\<not> (\<forall>k\<in>{1..7}. ?r k = ?r 0)"
      using eq8 r0 res1 by auto
    then obtain k where k: "k \<in> {1..7}" "\<forall>j\<in>{1..<k}. ?r j = ?r 0" "?r k \<noteq> ?r 0"
      by (rule first_other_read)
    have "?res = (if ?r k < 0 then ?r k else 1, snd (readsFrom bus s k))"
      using other k r0 by blast
    then have "0 \<le> ?r k" using res1 by (auto split: if_splits)
    then show "0 \<le> ?r 0 \<and> (\<exists>k\<in>{1..7}. (\<forall>j\<in>{1..<k}. ?r j = ?r 0) \<and> 0 \<le> ?r k \<and> ?r k \<noteq> ?r 0)"
      using r0 k by blast
  next
    assume "0 \<le> ?r 0 \<and> (\<exists>k\<in>{1..7}. (\<forall>j\<in>{1..<k}. ?r j = ?r 0) \<and> 0 \<le> ?r k \<and> ?r k \<noteq> ?r 0)"
    then obtain k where "k \<in> {1..7}" "0 \<le> ?r 0" "\<forall>j\<in>{1..<k}. ?r j = ?r 0" "0 \<le> ?r k" "?r k \<noteq> ?r 0"
      by blast
    then have "?res = (1, snd (readsFrom bus s k))" using c16 by blast
    then show "fst ?res = 1" by simp
  qed
  have zero: "fst ?res = 0 \<longleftrightarrow> 0 \<le> ?r 0 \<and> (\<forall>k\<in>{1..7}. ?r k = ?r 0)"
  proof
    assume res0: "fst ?res = 0"
    have r0: "0 \<le> ?r 0"
    proof (rule ccontr)
      assume "\<not> 0 \<le> ?r 0"
      then have "?r 0 < 0" by simp
      then show False using isDevice16Bit_failed_first[of bus s] res0 by simp
    qed
    have "\<forall>k\<in>{1..7}. ?r k = ?r 0"
    proof (rule ccontr)
      assume "\<not> (\<forall>k\<in>{1..7}. ?r k = ?r 0)"
      then obtain k where k: "k \<in> {1..7}" "\<forall>j\<in>{1..<k}. ?r j = ?r 0" "?r k \<noteq> ?r 0"
        by (rule first_other_read)
      have "?res = (if ?r k < 0 then ?r k else 1, snd (readsFrom bus s k))"
        using other k r0 by blast
      then show False using res0 by (auto split: if_splits)
    qed
    with r0 show "0 \<le> ?r 0 \<and> (\<forall>k\<in>{1..7}. ?r k = ?r 0)" by blast
  next
    assume "0 \<le> ?r 0 \<and> (\<forall>k\<in>{1..7}. ?r k = ?r 0)"
    then have "?res = (0, snd (readsFrom bus s 7))" using eq8 by blast
    then show "fst ?res = 0" by simp
  qed
  have ex1: "isDevice16Bit False (scriptedBus (\<lambda>n. if n = 0 then 0xAA else 0xBB)) 0 = (1, 2)"
    by (simp add: isDevice16Bit_def scriptedBus_def probeLoop_step)
  have ex2: "isDevice16Bit False (scriptedBus (\<lambda>n. 0xAA)) 0 = (0, 8)"
    by (simp add: isDevice16Bit_def scriptedBus_def probeLoop_step probeLoop_end)
  from one zero eq8 c16 fail ex1 ex2 show ?thesis by blast
qed

lemma readsFrom_scriptedBus: "readsFrom (scriptedBus f) 0 k = (f k, Suc k)"
  by (induction k) (simp_all add: scriptedBus_def)

text \<open>The theorem on a scripted bus whose reads are 5, 5, 5, 9: four reads, 16-bit.\<close>

theorem isDevice16Bit_classifies_witness:
  "0 \<le> fst (readsFrom (scriptedBus (\<lambda>n. if n < 3 then 5 else 9)) 0 0) \<and>
   fst (readsFrom (scriptedBus (\<lambda>n. if n < 3 then 5 else 9)) 0 1) = 5 \<and>
   fst (readsFrom (scriptedBus (\<lambda>n. if n < 3 then 5 else 9)) 0 2) = 5 \<and>
   fst (readsFrom (scriptedBus (\<lambda>n. if n < 3 then 5 else 9)) 0 3) = 9 \<and>
   isDevice16Bit False (scriptedBus (\<lambda>n. if n < 3 then 5 else 9)) 0 = (1, 4)"
proof -
  let ?bus = "scriptedBus (\<lambda>n. if n < 3 then 5 else 9)"
  have "\<forall>k\<in>{1..7}. 0 \<le> fst (readsFrom ?bus 0 0) \<and>
          (\<forall>j\<in>{1..<k}. fst (readsFrom ?bus 0 j) = fst (readsFrom ?bus 0 0)) \<and>
          0 \<le> fst (readsFrom ?bus 0 k) \<and> fst (readsFrom ?bus 0 k) \<noteq> fst (readsFrom ?bus 0 0) \<longrightarrow>
          isDevice16Bit False ?bus 0 = (1, snd (readsFrom ?bus 0 k))"
    using isDevice16Bit_classifies[of ?bus 0] by blast
  then have "0 \<le> fst (readsFrom ?bus 0 0) \<and>
          (\<forall>j\<in>{1..<3}. fst (readsFrom ?bus 0 j) = fst (readsFrom ?bus 0 0)) \<and>
          0 \<le> fst (readsFrom ?bus 0 3) \<and> fst (readsFrom ?bus 0 3) \<noteq> fst (readsFrom ?bus 0 0) \<longrightarrow>
          isDevice16Bit False ?bus 0 = (1, snd (readsFrom ?bus 0 3))"
    by (rule bspec) simp
  then show ?thesis
    unfolding readsFrom_scriptedBus by simp
qed

subsection \<open>Field decoding\<close>













subsection \<open>Write validation and header validation\<close>

lemma formatFru_no_areas:
  "formatFru char_signed utc_offset [v, 0, 0, 0, 0, 0, p, c, 0] Map.empty =
     Decoded [''Common_Format_Version'' \<mapsto> to_string (char_int char_signed v)]"
  by (simp add: formatFru_def FRU_AREAS_def)

lemma formatFru_shared_offset:
  "\<exists>m. formatFru char_signed utc_offset
        [0x01, 0x00, 0x01, 0x01, 0x00, 0x00, 0x00, 0xFD,
         0x01, 0x01, 0x00, 0x00, 0x00, 0x00, 0xC1, 0x00] Map.empty = Decoded m"
  by (simp add: formatFru_def FRU_AREAS_def CHASSIS_FRU_AREAS_def BOARD_FRU_AREAS_def Let_def
        word_le_nat_alt)

lemma checkOffsets_from_1:
  "checkOffsets bd 1 {} = distinct (filter (\<lambda>b. b \<noteq> 0) [bd!1, bd!2, bd!3, bd!4, bd!5])"
  by (simp add: numeral_eq_Suc) 

lemma headerSum_from_0:
  "headerSum bd 0 (0::'w::len word) = ucast (bd!0) + ucast (bd!1) + ucast (bd!2) + ucast (bd!3) + ucast (bd!4) + ucast (bd!5) + ucast (bd!6)"
  by (simp add: numeral_eq_Suc)

text \<open>
  Claim C9. There are byte vectors of at most 512 bytes that the decoder accepts, so
  that \<^verbatim>\<open>WriteFru\<close> writes them (here to the baseboard file, ending in a rescan),
  although \<^const>\<open>validateHeader\<close> rejects their first eight bytes: one whose only
  defect is the checksum, one with format version 2, one with a non-zero pad byte
  and one with two equal non-zero area offsets. The decoder tests none of these.
\<close>

theorem writeFru_accepts_rejected_headers:
  "(\<exists>fru. length fru \<le> MAX_FRU_SIZE \<and> (\<exists>m. formatFru char_signed utc_offset fru Map.empty = Decoded m) \<and>
      WriteFru char_signed utc_offset \<lparr>baseboard_open_good = True, baseboard_write_good = True, i2c_open_ok = True\<rparr>
         busdev 0 0 fru s = RescanScheduled \<and>
      fru ! 0 = 1 \<and> fru ! 6 = 0 \<and> checkOffsets fru 1 {} \<and>
      \<not> validateHeader TYPE(32) (take 8 fru) \<and> \<not> validateHeader TYPE(64) (take 8 fru))
   \<and> (\<exists>fru. length fru \<le> MAX_FRU_SIZE \<and> (\<exists>m. formatFru char_signed utc_offset fru Map.empty = Decoded m) \<and>
      WriteFru char_signed utc_offset \<lparr>baseboard_open_good = True, baseboard_write_good = True, i2c_open_ok = True\<rparr>
         busdev 0 0 fru s = RescanScheduled \<and>
      fru ! 0 \<noteq> 1 \<and>
      \<not> validateHeader TYPE(32) (take 8 fru) \<and> \<not> validateHeader TYPE(64) (take 8 fru))
   \<and> (\<exists>fru. length fru \<le> MAX_FRU_SIZE \<and> (\<exists>m. formatFru char_signed utc_offset fru Map.empty = Decoded m) \<and>
      WriteFru char_signed utc_offset \<lparr>baseboard_open_good = True, baseboard_write_good = True, i2c_open_ok = True\<rparr>
         busdev 0 0 fru s = RescanScheduled \<and>
      fru ! 0 = 1 \<and> fru ! 6 \<noteq> 0 \<and>
      \<not> validateHeader TYPE(32) (take 8 fru) \<and> \<not> validateHeader TYPE(64) (take 8 fru))
   \<and> (\<exists>fru. length fru \<le> MAX_FRU_SIZE \<and> (\<exists>m. formatFru char_signed utc_offset fru Map.empty = Decoded m) \<and>
      WriteFru char_signed utc_offset \<lparr>baseboard_open_good = True, baseboard_write_good = True, i2c_open_ok = True\<rparr>
         busdev 0 0 fru s = RescanScheduled \<and>
      fru ! 0 = 1 \<and> fru ! 6 = 0 \<and> \<not> checkOffsets fru 1 {} \<and>
      \<not> validateHeader TYPE(32) (take 8 fru) \<and> \<not> validateHeader TYPE(64) (take 8 fru))"
proof -
  obtain m where m: "formatFru char_signed utc_offset
        [0x01, 0x00, 0x01, 0x01, 0x00, 0x00, 0x00, 0xFD,
         0x01, 0x01, 0x00, 0x00, 0x00, 0x00, 0xC1, 0x00] Map.empty = Decoded m"
    using formatFru_shared_offset ..
  have e1: "(\<exists>fru. length fru \<le> MAX_FRU_SIZE \<and> (\<exists>m. formatFru char_signed utc_offset fru Map.empty = Decoded m) \<and>
      WriteFru char_signed utc_offset \<lparr>baseboard_open_good = True, baseboard_write_good = True, i2c_open_ok = True\<rparr>
         busdev 0 0 fru s = RescanScheduled \<and>
      fru ! 0 = 1 \<and> fru ! 6 = 0 \<and> checkOffsets fru 1 {} \<and>
      \<not> validateHeader TYPE(32) (take 8 fru) \<and> \<not> validateHeader TYPE(64) (take 8 fru))"
    by (rule exI[of _ "[1, 0, 0, 0, 0, 0, 0, 0, 0]"])
       (simp add: WriteFru_def writeFru_def formatFru_no_areas m MAX_FRU_SIZE_def
          validateHeader_def checkOffsets_from_1 headerSum_from_0)
  have e2: "(\<exists>fru. length fru \<le> MAX_FRU_SIZE \<and> (\<exists>m. formatFru char_signed utc_offset fru Map.empty = Decoded m) \<and>
      WriteFru char_signed utc_offset \<lparr>baseboard_open_good = True, baseboard_write_good = True, i2c_open_ok = True\<rparr>
         busdev 0 0 fru s = RescanScheduled \<and>
      fru ! 0 \<noteq> 1 \<and>
      \<not> validateHeader TYPE(32) (take 8 fru) \<and> \<not> validateHeader TYPE(64) (take 8 fru))"
    by (rule exI[of _ "[2, 0, 0, 0, 0, 0, 0, 0xFE, 0]"])
       (simp add: WriteFru_def writeFru_def formatFru_no_areas m MAX_FRU_SIZE_def
          validateHeader_def checkOffsets_from_1 headerSum_from_0)
  have e3: "(\<exists>fru. length fru \<le> MAX_FRU_SIZE \<and> (\<exists>m. formatFru char_signed utc_offset fru Map.empty = Decoded m) \<and>
      WriteFru char_signed utc_offset \<lparr>baseboard_open_good = True, baseboard_write_good = True, i2c_open_ok = True\<rparr>
         busdev 0 0 fru s = RescanScheduled \<and>
      fru ! 0 = 1 \<and> fru ! 6 \<noteq> 0 \<and>
      \<not> validateHeader TYPE(32) (take 8 fru) \<and> \<not> validateHeader TYPE(64) (take 8 fru))"
    by (rule exI[of _ "[1, 0, 0, 0, 0, 0, 1, 0xFE, 0]"])
       (simp add: WriteFru_def writeFru_def formatFru_no_areas m MAX_FRU_SIZE_def
          validateHeader_def checkOffsets_from_1 headerSum_from_0)
  have e4: "(\<exists>fru. length fru \<le> MAX_FRU_SIZE \<and> (\<exists>m. formatFru char_signed utc_offset fru Map.empty = Decoded m) \<and>
      WriteFru char_signed utc_offset \<lparr>baseboard_open_good = True, baseboard_write_good = True, i2c_open_ok = True\<rparr>
         busdev 0 0 fru s = RescanScheduled \<and>
      fru ! 0 = 1 \<and> fru ! 6 = 0 \<and> \<not> checkOffsets fru 1 {} \<and>
      \<not> validateHeader TYPE(32) (take 8 fru) \<and> \<not> validateHeader TYPE(64) (take 8 fru))"
    by (rule exI[of _ "[0x01, 0x00, 0x01, 0x01, 0x00, 0x00, 0x00, 0xFD,
         0x01, 0x01, 0x00, 0x00, 0x00, 0x00, 0xC1, 0x00]"])
       (simp add: WriteFru_def writeFru_def formatFru_no_areas m MAX_FRU_SIZE_def
          validateHeader_def checkOffsets_from_1 headerSum_from_0)
  from e1 e2 e3 e4 show ?thesis by (intro conjI)
qed

subsection \<open>Replies of WriteFru\<close>



subsection \<open>The write loop\<close>

lemma writeLoop_done:
  "\<not> index < length fru \<Longrightarrow> writeLoop busdev fru index retries address s = (ReturnsTrue, [CloseFile], s)"
  by (subst writeLoop.simps) simp

lemma writeLoop_set_failed:
  "index < length fru \<Longrightarrow> pageSwitch busdev index retries address s = (False, address1, s1, evs1) \<Longrightarrow>
   writeLoop busdev fru index retries address s = (ThrowsInternalError, evs1 @ [CloseFile], s1)"
  by (subst writeLoop.simps) simp

lemma writeLoop_give_up:
  "index < length fru \<Longrightarrow> pageSwitch busdev index retries address s = (True, address1, s1, evs1) \<Longrightarrow>
   smbus_write_byte_data busdev (of_nat index) (fru ! index) s1 = (r, s2) \<Longrightarrow> r < 0 \<Longrightarrow> retries = 0 \<Longrightarrow>
   writeLoop busdev fru index retries address s =
     (ThrowsInternalError, evs1 @ [WriteByteData (of_nat index) (fru ! index) r, CloseFile], s2)"
  by (subst writeLoop.simps) simp

lemma writeLoop_retry:
  "index < length fru \<Longrightarrow> pageSwitch busdev index retries address s = (True, address1, s1, evs1) \<Longrightarrow>
   smbus_write_byte_data busdev (of_nat index) (fru ! index) s1 = (r, s2) \<Longrightarrow> r < 0 \<Longrightarrow> retries \<noteq> 0 \<Longrightarrow>
   writeLoop busdev fru index retries address s =
     (case writeLoop busdev fru index (retries - 1) address1 s2 of
        (res, evs, s3) \<Rightarrow>
          (res, evs1 @ [WriteByteData (of_nat index) (fru ! index) r, SleepMs 10] @ evs, s3))"
  by (subst writeLoop.simps) simp

lemma writeLoop_next:
  "index < length fru \<Longrightarrow> pageSwitch busdev index retries address s = (True, address1, s1, evs1) \<Longrightarrow>
   smbus_write_byte_data busdev (of_nat index) (fru ! index) s1 = (r, s2) \<Longrightarrow> \<not> r < 0 \<Longrightarrow>
   writeLoop busdev fru index retries address s =
     (case writeLoop busdev fru (index + 1) RETRY_MAX address1 s2 of
        (res, evs, s3) \<Rightarrow>
          (res, evs1 @ [WriteByteData (of_nat index) (fru ! index) r, SleepMs 10] @ evs, s3))"
  by (subst writeLoop.simps) simp

lemma pageSwitch_later_attempt:
  "retries < RETRY_MAX \<Longrightarrow> pageSwitch busdev index retries address s = (True, address, s, [])"
  by (simp add: pageSwitch_def)

lemma pageSwitch_inside_page:
  "\<not> (index \<noteq> 0 \<and> index mod 256 = 0) \<Longrightarrow> pageSwitch busdev index retries address s = (True, address, s, [])"
  by (auto simp: pageSwitch_def MAX_EEPROM_PAGE_INDEX_def)

lemma pageSwitch_crossing:
  "index \<noteq> 0 \<Longrightarrow> index mod 256 = 0 \<Longrightarrow>
   pageSwitch busdev index RETRY_MAX address s =
     (case ioctl_slave_force busdev (uint (address + 1)) s of
        (r, s') \<Rightarrow> (\<not> r < 0, address + 1, s', [SlaveForce (uint (address + 1)) r]))"
  by (simp add: pageSwitch_def MAX_EEPROM_PAGE_INDEX_def)

lemma writeLoop_retries:
  assumes "index < length fru" and "retries < RETRY_MAX"
  shows "writeLoop busdev fru index retries address s =
     (case tryByte busdev (of_nat index) (fru ! index) retries s of
        (ok, evs2, s2) \<Rightarrow>
          if \<not> ok then (ThrowsInternalError, evs2 @ [CloseFile], s2)
          else (case writeLoop busdev fru (index + 1) RETRY_MAX address s2 of
                  (res, evs, s3) \<Rightarrow> (res, evs2 @ evs, s3)))"
  using assms(2)
proof (induction retries arbitrary: s)
  case 0
  obtain r s2 where w: "smbus_write_byte_data busdev (of_nat index) (fru ! index) s = (r, s2)"
    by (cases "smbus_write_byte_data busdev (of_nat index) (fru ! index) s")
  note ps = pageSwitch_later_attempt[OF 0, of busdev index address s]
  show ?case
  proof (cases "r < 0")
    case True
    from writeLoop_give_up[OF assms(1) ps w True refl] show ?thesis using w True by simp
  next
    case False
    from writeLoop_next[OF assms(1) ps w False] show ?thesis using w False
      by (simp split: prod.splits)
  qed
next
  case (Suc k)
  obtain r s2 where w: "smbus_write_byte_data busdev (of_nat index) (fru ! index) s = (r, s2)"
    by (cases "smbus_write_byte_data busdev (of_nat index) (fru ! index) s")
  note ps = pageSwitch_later_attempt[OF Suc.prems, of busdev index address s]
  have k: "k < RETRY_MAX" using Suc.prems by simp
  show ?case
  proof (cases "r < 0")
    case True
    have "writeLoop busdev fru index (Suc k) address s =
      (case writeLoop busdev fru index k address s2 of
        (res, evs, s3) \<Rightarrow> (res, [] @ [WriteByteData (of_nat index) (fru ! index) r, SleepMs 10] @ evs, s3))"
      using writeLoop_retry[OF assms(1) ps w True] by simp
    then show ?thesis using w True Suc.IH[OF k, of s2]
      by (simp split: prod.splits)
  next
    case False
    from writeLoop_next[OF assms(1) ps w False] show ?thesis using w False
      by (simp split: prod.splits)
  qed
qed

lemma writeLoop_first:
  assumes "index < length fru"
    and ps: "pageSwitch busdev index RETRY_MAX address s = (True, address1, s1, evs1)"
  shows "writeLoop busdev fru index RETRY_MAX address s =
     (case tryByte busdev (of_nat index) (fru ! index) 2 s1 of
        (ok, evs2, s2) \<Rightarrow>
          if \<not> ok then (ThrowsInternalError, evs1 @ evs2 @ [CloseFile], s2)
          else (case writeLoop busdev fru (index + 1) RETRY_MAX address1 s2 of
                  (res, evs, s3) \<Rightarrow> (res, evs1 @ evs2 @ evs, s3)))"
proof -
  obtain r s2 where w: "smbus_write_byte_data busdev (of_nat index) (fru ! index) s1 = (r, s2)"
    by (cases "smbus_write_byte_data busdev (of_nat index) (fru ! index) s1")
  have two: "(2::nat) = Suc 1" by simp
  show ?thesis
  proof (cases "r < 0")
    case True
    have one: "(1::nat) < RETRY_MAX" by (simp add: RETRY_MAX_def)
    have "writeLoop busdev fru index RETRY_MAX address s =
      (case writeLoop busdev fru index 1 address1 s2 of
        (res, evs, s3) \<Rightarrow> (res, evs1 @ [WriteByteData (of_nat index) (fru ! index) r, SleepMs 10] @ evs, s3))"
      using writeLoop_retry[OF assms(1) ps w True] by (simp add: RETRY_MAX_def)
    then show ?thesis
      unfolding two tryByte.simps writeLoop_retries[OF assms(1) one]
      using w True by (simp split: prod.splits)
  next
    case False
    from writeLoop_next[OF assms(1) ps w False] show ?thesis
      unfolding two tryByte.simps using w False by (simp split: prod.splits)
  qed
qed

lemma byte_of_nat_mod_256: "(of_nat (n mod 256) :: byte) = of_nat n"
  by (simp add: word_of_nat_eq_iff take_bit_eq_mod)

lemma writeBytes_done:
  "\<not> index < length fru \<Longrightarrow> writeBytes busdev fru index address s = (ReturnsTrue, [CloseFile], s)"
  by (subst writeBytes.simps) simp

lemma writeBytes_inside_page:
  "index < length fru \<Longrightarrow> \<not> (index \<noteq> 0 \<and> index mod 256 = 0) \<Longrightarrow>
   writeBytes busdev fru index address s =
     (case tryByte busdev (of_nat (index mod 256)) (fru ! index) 2 s of
        (ok, evs2, s2) \<Rightarrow>
          if \<not> ok then (ThrowsInternalError, evs2 @ [CloseFile], s2)
          else (case writeBytes busdev fru (index + 1) address s2 of
                  (res, evs, s3) \<Rightarrow> (res, evs2 @ evs, s3)))"
  by (subst writeBytes.simps) (auto simp: Let_def split: prod.splits)

lemma writeBytes_crossing:
  "index < length fru \<Longrightarrow> index \<noteq> 0 \<Longrightarrow> index mod 256 = 0 \<Longrightarrow>
   ioctl_slave_force busdev (uint (address + 1)) s = (r, s') \<Longrightarrow>
   writeBytes busdev fru index address s =
     (if r < 0 then (ThrowsInternalError, [SlaveForce (uint (address + 1)) r, CloseFile], s')
      else
        (case tryByte busdev (of_nat (index mod 256)) (fru ! index) 2 s' of
           (ok, evs2, s2) \<Rightarrow>
             if \<not> ok then (ThrowsInternalError, SlaveForce (uint (address + 1)) r # evs2 @ [CloseFile], s2)
             else (case writeBytes busdev fru (index + 1) (address + 1) s2 of
                     (res, evs, s3) \<Rightarrow> (res, SlaveForce (uint (address + 1)) r # evs2 @ evs, s3))))"
  by (subst writeBytes.simps) (auto simp: Let_def split: prod.splits)

lemma writeLoop_eq_writeBytes:
  "writeLoop busdev fru index RETRY_MAX address s = writeBytes busdev fru index address s"
proof (induction "length fru - index" arbitrary: index address s)
  case 0
  then have "\<not> index < length fru" by simp
  then show ?case by (simp add: writeLoop_done writeBytes_done)
next
  case (Suc d)
  then have lt: "index < length fru" by simp
  have IH: "writeLoop busdev fru (index + 1) RETRY_MAX a t = writeBytes busdev fru (index + 1) a t" for a t
    using Suc.hyps(1)[of "index + 1" a t] Suc.hyps(2) by simp
  show ?case
  proof (cases "index \<noteq> 0 \<and> index mod 256 = 0")
    case False
    note ps = pageSwitch_inside_page[OF False, of busdev RETRY_MAX address s]
    show ?thesis
      unfolding writeLoop_first[OF lt ps] IH writeBytes_inside_page[OF lt False] byte_of_nat_mod_256
        append_Nil
      by (rule refl)
  next
    case True
    obtain r s' where io: "ioctl_slave_force busdev (uint (address + 1)) s = (r, s')"
      by (cases "ioctl_slave_force busdev (uint (address + 1)) s")
    have ps: "pageSwitch busdev index RETRY_MAX address s =
        (\<not> r < 0, address + 1, s', [SlaveForce (uint (address + 1)) r])"
      using pageSwitch_crossing[of index busdev address s] True io by simp
    note wb = writeBytes_crossing[OF lt True[THEN conjunct1] True[THEN conjunct2] io]
    show ?thesis
    proof (cases "r < 0")
      case neg: True
      then have ps': "pageSwitch busdev index RETRY_MAX address s =
        (False, address + 1, s', [SlaveForce (uint (address + 1)) r])" using ps by simp
      show ?thesis
        unfolding writeLoop_set_failed[OF lt ps'] wb using neg by simp
    next
      case nonneg: False
      then have ps': "pageSwitch busdev index RETRY_MAX address s =
        (True, address + 1, s', [SlaveForce (uint (address + 1)) r])" using ps by simp
      show ?thesis
        unfolding writeLoop_first[OF lt ps'] IH wb byte_of_nat_mod_256 append_Cons append_Nil
        using nonneg by (simp only: if_False)
    qed
  qed
qed

lemma tryByte_okBus: "tryByte okBus reg v n () = (True, [WriteByteData reg v 0, SleepMs 10], ())"
  by (cases n) (simp_all add: okBus_def)

lemma writeBytes_okBus_run:
  assumes "j \<le> length fru" and "i \<le> j"
    and "\<forall>k. i \<le> k \<and> k < j \<longrightarrow> \<not> (k \<noteq> 0 \<and> k mod 256 = 0)"
  shows "writeBytes okBus fru i a () =
     (case writeBytes okBus fru j a () of
        (res, evs, u) \<Rightarrow>
          (res, concat (map (\<lambda>k. [WriteByteData (of_nat (k mod 256)) (fru ! k) 0, SleepMs 10]) [i..<j]) @ evs, u))"
  using assms(2,3)
proof (induction "j - i" arbitrary: i)
  case 0
  then have "i = j" by simp
  then show ?case by (simp split: prod.splits)
next
  case (Suc d)
  then have lt: "i < j" by simp
  then have lt': "i < length fru" using assms(1) by simp
  have inside: "\<not> (i \<noteq> 0 \<and> i mod 256 = 0)" using Suc.prems(2)[rule_format, of i] lt by simp
  have IH: "writeBytes okBus fru (i + 1) a () =
     (case writeBytes okBus fru j a () of
        (res, evs, u) \<Rightarrow>
          (res, concat (map (\<lambda>k. [WriteByteData (of_nat (k mod 256)) (fru ! k) 0, SleepMs 10]) [i + 1..<j]) @ evs, u))"
  proof (rule Suc.hyps(1))
    show "d = j - (i + 1)" using Suc.hyps(2) by simp
    show "i + 1 \<le> j" using lt by simp
    show "\<forall>k. i + 1 \<le> k \<and> k < j \<longrightarrow> \<not> (k \<noteq> 0 \<and> k mod 256 = 0)"
    proof (intro allI impI)
      fix k assume "i + 1 \<le> k \<and> k < j"
      then have "i \<le> k \<and> k < j" by simp
      then show "\<not> (k \<noteq> 0 \<and> k mod 256 = 0)" by (rule Suc.prems(2)[rule_format])
    qed
  qed
  have upt: "[i..<j] = i # [i + 1..<j]" using upt_conv_Cons[OF lt] by simp
  have step: "writeBytes okBus fru i a () =
     (case writeBytes okBus fru (i + 1) a () of
        (res, evs, u) \<Rightarrow>
          (res, [WriteByteData (of_nat (i mod 256)) (fru ! i) 0, SleepMs 10] @ evs, u))"
    unfolding writeBytes_inside_page[OF lt' inside] tryByte_okBus by simp
  show ?case
    unfolding step IH upt by (simp split: prod.splits)
qed

lemma writeBytes_okBus_512:
  assumes "length fru = 512"
  shows "writeBytes okBus fru 0 a () =
     (ReturnsTrue,
      concat (map (\<lambda>k. [WriteByteData (of_nat (k mod 256)) (fru ! k) 0, SleepMs 10]) [0..<256]) @
      [SlaveForce (uint (a + 1)) 0] @
      concat (map (\<lambda>k. [WriteByteData (of_nat (k mod 256)) (fru ! k) 0, SleepMs 10]) [256..<512]) @
      [CloseFile], ())"
proof -
  let ?W = "\<lambda>k. [WriteByteData (of_nat (k mod 256)) (fru ! k) 0, SleepMs 10]"
  have p1: "writeBytes okBus fru 0 a () =
     (case writeBytes okBus fru 256 a () of (res, evs, u) \<Rightarrow> (res, concat (map ?W [0..<256]) @ evs, u))"
  proof (rule writeBytes_okBus_run)
    show "256 \<le> length fru" using assms by simp
    show "(0::nat) \<le> 256" by simp
    show "\<forall>k::nat. 0 \<le> k \<and> k < 256 \<longrightarrow> \<not> (k \<noteq> 0 \<and> k mod 256 = 0)" by auto
  qed
  have io: "ioctl_slave_force okBus (uint (a + 1)) () = (0, ())" by (simp add: okBus_def)
  have p2: "writeBytes okBus fru 256 a () =
     (case writeBytes okBus fru 257 (a + 1) () of
        (res, evs, u) \<Rightarrow> (res, SlaveForce (uint (a + 1)) 0 # ?W 256 @ evs, u))"
    using writeBytes_crossing[OF _ _ _ io, of 256 fru] assms
    by (simp add: tryByte_okBus del: upt_rec_numeral split: prod.splits)
  have p3: "writeBytes okBus fru 257 (a + 1) () =
     (case writeBytes okBus fru 512 (a + 1) () of (res, evs, u) \<Rightarrow> (res, concat (map ?W [257..<512]) @ evs, u))"
  proof (rule writeBytes_okBus_run)
    show "\<forall>k::nat. 257 \<le> k \<and> k < 512 \<longrightarrow> \<not> (k \<noteq> 0 \<and> k mod 256 = 0)"
    proof (intro allI impI)
      fix k :: nat assume "257 \<le> k \<and> k < 512"
      then show "\<not> (k \<noteq> 0 \<and> k mod 256 = 0)" by presburger
    qed
    show "512 \<le> length fru" using assms by simp
    show "(257::nat) \<le> 512" by simp
  qed
  have p4: "writeBytes okBus fru 512 (a + 1) () = (ReturnsTrue, [CloseFile], ())"
    using assms by (simp add: writeBytes_done)
  have upt: "[256..<512] = 256 # [257..<512]"
    using upt_conv_Cons[of 256 512] by (simp del: upt_rec_numeral)
  show ?thesis unfolding p1 p2 p3 p4 upt by (simp del: upt_rec_numeral)
qed

lemma tryByte_2_cases:
  "(\<exists>r1 r2 r3 s'. r1 < 0 \<and> r2 < 0 \<and> r3 < 0 \<and>
      tryByte busdev reg v 2 s =
        (False, [WriteByteData reg v r1, SleepMs 10, WriteByteData reg v r2, SleepMs 10,
                 WriteByteData reg v r3], s')) \<or>
   (\<exists>r s' failed. 0 \<le> r \<and> length failed \<le> 2 \<and> (\<forall>q\<in>set failed. q < 0) \<and>
      tryByte busdev reg v 2 s =
        (True, concat (map (\<lambda>q. [WriteByteData reg v q, SleepMs 10]) failed) @
               [WriteByteData reg v r, SleepMs 10], s'))"
proof -
  have two: "(2::nat) = Suc (Suc 0)" by simp
  obtain r1 s1 where w1: "smbus_write_byte_data busdev reg v s = (r1, s1)"
    by (cases "smbus_write_byte_data busdev reg v s")
  obtain r2 s2 where w2: "smbus_write_byte_data busdev reg v s1 = (r2, s2)"
    by (cases "smbus_write_byte_data busdev reg v s1")
  obtain r3 s3 where w3: "smbus_write_byte_data busdev reg v s2 = (r3, s3)"
    by (cases "smbus_write_byte_data busdev reg v s2")
  show ?thesis
  proof (cases "r1 < 0")
    case False
    then have "tryByte busdev reg v 2 s = (True, concat (map (\<lambda>q. [WriteByteData reg v q, SleepMs 10]) []) @
               [WriteByteData reg v r1, SleepMs 10], s1)"
      unfolding two using w1 by simp
    then show ?thesis using False
      by - (rule disjI2, rule exI[where x = r1], rule exI[where x = s1], rule exI[where x = "[]"], simp)
  next
    case f1: True
    show ?thesis
    proof (cases "r2 < 0")
      case False
      then have "tryByte busdev reg v 2 s = (True, concat (map (\<lambda>q. [WriteByteData reg v q, SleepMs 10]) [r1]) @
               [WriteByteData reg v r2, SleepMs 10], s2)"
        unfolding two using w1 w2 f1 by simp
      then show ?thesis using False f1
        by - (rule disjI2, rule exI[where x = r2], rule exI[where x = s2], rule exI[where x = "[r1]"], simp)
    next
      case f2: True
      show ?thesis
      proof (cases "r3 < 0")
        case False
        then have "tryByte busdev reg v 2 s = (True, concat (map (\<lambda>q. [WriteByteData reg v q, SleepMs 10]) [r1, r2]) @
               [WriteByteData reg v r3, SleepMs 10], s3)"
          unfolding two using w1 w2 w3 f1 f2 by simp
        then show ?thesis using False f1 f2
          by - (rule disjI2, rule exI[where x = r3], rule exI[where x = s3], rule exI[where x = "[r1, r2]"], simp)
      next
        case f3: True
        then have "tryByte busdev reg v 2 s =
          (False, [WriteByteData reg v r1, SleepMs 10, WriteByteData reg v r2, SleepMs 10,
                 WriteByteData reg v r3], s3)"
          unfolding two using w1 w2 w3 f1 f2 by simp
        then show ?thesis using f1 f2 f3
          by - (rule disjI1, rule exI[where x = r1], rule exI[where x = r2], rule exI[where x = r3],
                rule exI[where x = s3], simp)
      qed
    qed
  qed
qed

text \<open>
  Claim C6. The write loop, entered with the initial retry count, does what the write
  procedure \<^const>\<open>writeBytes\<close> says on every bus: the bytes are written one at a time
  in order at the register \<open>index mod 256\<close>; before the first attempt at a non-zero
  index that is a multiple of 256 the slave address is advanced by one; a failure to
  set it, or a byte whose three attempts all fail, ends the request with the internal
  error. For each byte, \<^const>\<open>tryByte\<close> makes at most three attempts: either three
  failed ones, or at most two failed ones followed by a successful one, and every
  attempt but a third failed one is followed by a sleep of 10 ms. Writing 512 bytes
  that pass validation to address 0x50 of a bus on which every call succeeds forces
  address 0x50, writes indices 0..255, forces 0x51, writes indices 256..511 at
  registers 0..255, and closes the handle.
\<close>

theorem writeLoop_follows_write_procedure:
  "writeLoop busdev fru index RETRY_MAX address s = writeBytes busdev fru index address s
   \<and> ((\<exists>r1 r2 r3 s'. r1 < 0 \<and> r2 < 0 \<and> r3 < 0 \<and>
          tryByte busdev reg v 2 s =
            (False, [WriteByteData reg v r1, SleepMs 10, WriteByteData reg v r2, SleepMs 10,
                     WriteByteData reg v r3], s')) \<or>
       (\<exists>r s' failed. 0 \<le> r \<and> length failed \<le> 2 \<and> (\<forall>q\<in>set failed. q < 0) \<and>
          tryByte busdev reg v 2 s =
            (True, concat (map (\<lambda>q. [WriteByteData reg v q, SleepMs 10]) failed) @
                   [WriteByteData reg v r, SleepMs 10], s')))
   \<and> (length data = 512 \<and> (\<exists>m. formatFru char_signed utc_offset data Map.empty = Decoded m) \<and>
        i2c_open_ok env \<longrightarrow>
        writeFru char_signed utc_offset env okBus bus 0x50 data () =
          (ReturnsTrue,
           SlaveForce 0x50 0 #
           concat (map (\<lambda>k. [WriteByteData (of_nat (k mod 256)) (data ! k) 0, SleepMs 10]) [0..<256]) @
           [SlaveForce 0x51 0] @
           concat (map (\<lambda>k. [WriteByteData (of_nat (k mod 256)) (data ! k) 0, SleepMs 10]) [256..<512]) @
           [CloseFile], ()))"
proof (intro conjI impI)
  show "writeLoop busdev fru index RETRY_MAX address s = writeBytes busdev fru index address s"
    by (rule writeLoop_eq_writeBytes)
  show "(\<exists>r1 r2 r3 s'. r1 < 0 \<and> r2 < 0 \<and> r3 < 0 \<and>
          tryByte busdev reg v 2 s =
            (False, [WriteByteData reg v r1, SleepMs 10, WriteByteData reg v r2, SleepMs 10,
                     WriteByteData reg v r3], s')) \<or>
       (\<exists>r s' failed. 0 \<le> r \<and> length failed \<le> 2 \<and> (\<forall>q\<in>set failed. q < 0) \<and>
          tryByte busdev reg v 2 s =
            (True, concat (map (\<lambda>q. [WriteByteData reg v q, SleepMs 10]) failed) @
                   [WriteByteData reg v r, SleepMs 10], s'))"
    by (rule tryByte_2_cases)
next
  assume h: "length data = 512 \<and> (\<exists>m. formatFru char_signed utc_offset data Map.empty = Decoded m) \<and>
        i2c_open_ok env"
  then obtain m where m: "formatFru char_signed utc_offset data Map.empty = Decoded m" by blast
  have len: "length data = 512" and op: "i2c_open_ok env" using h by simp_all
  have io: "ioctl_slave_force okBus (uint (0x50 :: byte)) () = (0, ())" by (simp add: okBus_def)
  have loop: "writeLoop okBus data 0 RETRY_MAX 0x50 () =
          (ReturnsTrue,
           concat (map (\<lambda>k. [WriteByteData (of_nat (k mod 256)) (data ! k) 0, SleepMs 10]) [0..<256]) @
           [SlaveForce 0x51 0] @
           concat (map (\<lambda>k. [WriteByteData (of_nat (k mod 256)) (data ! k) 0, SleepMs 10]) [256..<512]) @
           [CloseFile], ())"
    unfolding writeLoop_eq_writeBytes writeBytes_okBus_512[OF len] by (simp del: upt_rec_numeral)
  show "writeFru char_signed utc_offset env okBus bus 0x50 data () =
          (ReturnsTrue,
           SlaveForce 0x50 0 #
           concat (map (\<lambda>k. [WriteByteData (of_nat (k mod 256)) (data ! k) 0, SleepMs 10]) [0..<256]) @
           [SlaveForce 0x51 0] @
           concat (map (\<lambda>k. [WriteByteData (of_nat (k mod 256)) (data ! k) 0, SleepMs 10]) [256..<512]) @
           [CloseFile], ())"
    unfolding writeFru_def using len op io
    by (simp add: m loop MAX_FRU_SIZE_def del: upt_rec_numeral)
qed

text \<open>The theorem at a 512-byte FRU with an empty header, written to bus 1.\<close>

theorem writeLoop_follows_write_procedure_witness:
  "length ([1, 0, 0, 0, 0, 0, 0, 0xFF] @ replicate 504 (0::byte)) = 512 \<and>
   (\<exists>m. formatFru False 0 ([1, 0, 0, 0, 0, 0, 0, 0xFF] @ replicate 504 0) Map.empty = Decoded m) \<and>
   writeFru False 0 \<lparr>baseboard_open_good = True, baseboard_write_good = True, i2c_open_ok = True\<rparr>
       okBus 1 0x50 ([1, 0, 0, 0, 0, 0, 0, 0xFF] @ replicate 504 0) () =
     (ReturnsTrue,
      SlaveForce 0x50 0 #
      concat (map (\<lambda>k. [WriteByteData (of_nat (k mod 256))
                           (([1, 0, 0, 0, 0, 0, 0, 0xFF] @ replicate 504 0) ! k) 0, SleepMs 10]) [0..<256]) @
      [SlaveForce 0x51 0] @
      concat (map (\<lambda>k. [WriteByteData (of_nat (k mod 256))
                           (([1, 0, 0, 0, 0, 0, 0, 0xFF] @ replicate 504 0) ! k) 0, SleepMs 10]) [256..<512]) @
      [CloseFile], ())"
proof -
  let ?data = "[1, 0, 0, 0, 0, 0, 0, 0xFF] @ replicate 504 (0::byte)"
  let ?env = "\<lparr>baseboard_open_good = True, baseboard_write_good = True, i2c_open_ok = True\<rparr>"
  have len: "length ?data = 512" by simp
  have dec: "\<exists>m. formatFru False 0 ?data Map.empty = Decoded m"
    by (simp add: formatFru_def FRU_AREAS_def)
  have op: "i2c_open_ok ?env" by simp
  note t = writeLoop_follows_write_procedure[where data = ?data and char_signed = False
      and utc_offset = 0 and env = ?env and bus = 1, THEN conjunct2, THEN conjunct2]
  from t len dec op have "writeFru False 0 ?env okBus 1 0x50 ?data () =
     (ReturnsTrue,
      SlaveForce 0x50 0 #
      concat (map (\<lambda>k. [WriteByteData (of_nat (k mod 256)) (?data ! k) 0, SleepMs 10]) [0..<256]) @
      [SlaveForce 0x51 0] @
      concat (map (\<lambda>k. [WriteByteData (of_nat (k mod 256)) (?data ! k) 0, SleepMs 10]) [256..<512]) @
      [CloseFile], ())"
    by (simp only: simp_thms)
  with len dec show ?thesis by (intro conjI)
qed

end
